theory Spec2Isabelle
  imports Main
begin

section \<open>The persistent store\<close>

text \<open>
  The three tables of \<^verbatim>\<open>main.py\<close>: \<^verbatim>\<open>User\<close>, \<^verbatim>\<open>ListTODO\<close> and \<^verbatim>\<open>Task\<close>.
  A row is a record with one field per column; the field names carry the table as a
  prefix. The two foreign keys (\<^verbatim>\<open>ListTODO.author_id\<close>, \<^verbatim>\<open>Task.tasks_list\<close>) and
  \<^verbatim>\<open>Task.deadline\<close> are nullable columns, hence options; \<^verbatim>\<open>Task.done\<close> and
  \<^verbatim>\<open>Task.description\<close> are declared \<^verbatim>\<open>nullable=False\<close>.
\<close>

record date =
  year :: nat
  month :: nat
  day :: nat

record user_row =
  user_id :: nat
  user_email :: string
  user_password :: string
  user_name :: string

record list_row =
  list_id :: nat
  list_name :: string
  list_author_id :: "nat option"

record task_row =
  task_id :: nat
  task_done :: bool
  task_description :: string
  task_tasks_list :: "nat option"
  task_deadline :: "date option"

text \<open>
  The state a request runs against: the committed contents of the three tables, each in
  ascending order of the primary key, and the user id that Flask-Login keeps in the
  session of the client (\<open>None\<close> for an anonymous client).
\<close>

record state =
  users :: "user_row list"
  list_todos :: "list_row list"
  tasks :: "task_row list"
  session_user_id :: "nat option"

text \<open>
  An integer primary key that the insert leaves out is given the largest key of the table
  plus one, and 1 in an empty table.
\<close>

definition fresh_id :: "nat list \<Rightarrow> nat" where
  "fresh_id ids = Suc (fold max ids 0)"

section \<open>Responses\<close>

text \<open>
  An exception that no handler catches ends the request with a server error page; the
  session of the ORM is then rolled back, so nothing that was not committed before the
  exception reaches the store.
\<close>

datatype exn =
  AttributeError | IndexError | ValueError | IntegrityError | UnmappedInstanceError
  | OverflowError

text \<open>The keyword arguments that the handlers pass to \<^verbatim>\<open>render_template\<close>.\<close>

datatype kwarg =
  Form
  | Lists "list_row list option"
  | Data "list_row option"
  | Completed bool

datatype response =
  Render_template string "kwarg list"
  | Redirect string
  | Abort nat
  | Server_error exn

text \<open>
  A handler returns the state after the request, the messages it has flashed, and the
  response.
\<close>

type_synonym outcome = "state \<times> string list \<times> response"

section \<open>Queries\<close>

text \<open>
  \<^verbatim>\<open>db.session.execute(db.select(T).where(T.id == k)).scalar()\<close> is the first row with
  that key, or \<^verbatim>\<open>None\<close>: \<^const>\<open>find\<close>. An attribute assignment on the object the
  query returned is written back by primary key; on \<^verbatim>\<open>None\<close> it raises
  \<^verbatim>\<open>AttributeError\<close>, which is the \<open>None\<close> of \<open>update_task\<close>.
\<close>

definition update_task :: "nat \<Rightarrow> (task_row \<Rightarrow> task_row) \<Rightarrow> task_row list \<Rightarrow> task_row list option" where
  "update_task k f ts =
     (case find (\<lambda>t. task_id t = k) ts of
        None \<Rightarrow> None
      | Some _ \<Rightarrow> Some (map (\<lambda>t. if task_id t = k then f t else t) ts))"

text \<open>The relationship \<^verbatim>\<open>ListTODO.tasks\<close>: the tasks whose foreign key is the list's id.\<close>

definition tasks_of :: "state \<Rightarrow> nat \<Rightarrow> task_row list" where
  "tasks_of s k = filter (\<lambda>t. task_tasks_list t = Some k) (tasks s)"

section \<open>Parsing a deadline\<close>

text \<open>
  \<^verbatim>\<open>dt.strptime(date, "%Y-%m-%d")\<close>: four digits, a month written \<^verbatim>\<open>1[0-2]\<close>,
  \<^verbatim>\<open>0[1-9]\<close> or \<^verbatim>\<open>[1-9]\<close>, a day written \<^verbatim>\<open>3[01]\<close>, \<^verbatim>\<open>[12]\d\<close>, \<^verbatim>\<open>0[1-9]\<close>,
  \<^verbatim>\<open>[1-9]\<close> or a space and \<^verbatim>\<open>[1-9]\<close>, nothing after the day, and the three numbers a
  date of the calendar from year 1 on. Anything else raises \<^verbatim>\<open>ValueError\<close> (\<open>None\<close>).
  The digits here are the ASCII digits. Python's \<^verbatim>\<open>\d\<close> also takes the other decimal
  digits of Unicode, so a date written with those is parsed by the code and refused
  here; every string that \<open>strptime\<close> accepts is parsed by the code to the same date.
\<close>

definition is_digit :: "char \<Rightarrow> bool" where
  "is_digit c = (48 \<le> (of_char c :: nat) \<and> (of_char c :: nat) \<le> 57)"

definition digit_val :: "char \<Rightarrow> nat" where
  "digit_val c = of_char c - 48"

definition is_leap :: "nat \<Rightarrow> bool" where
  "is_leap y = (y mod 4 = 0 \<and> (y mod 100 \<noteq> 0 \<or> y mod 400 = 0))"

definition days_in_month :: "nat \<Rightarrow> nat \<Rightarrow> nat" where
  "days_in_month y m =
     (if m = 2 then (if is_leap y then 29 else 28)
      else if m = 4 \<or> m = 6 \<or> m = 9 \<or> m = 11 then 30 else 31)"

fun parse_month :: "string \<Rightarrow> (nat \<times> string) option" where
  "parse_month (a # b # c # rest) =
     (if a = CHR ''1'' \<and> is_digit b \<and> digit_val b \<le> 2 \<and> c = CHR ''-''
        then Some (10 + digit_val b, rest)
      else if a = CHR ''0'' \<and> is_digit b \<and> 1 \<le> digit_val b \<and> c = CHR ''-''
        then Some (digit_val b, rest)
      else if is_digit a \<and> 1 \<le> digit_val a \<and> b = CHR ''-''
        then Some (digit_val a, c # rest)
      else None)"
| "parse_month [a, b] =
     (if is_digit a \<and> 1 \<le> digit_val a \<and> b = CHR ''-'' then Some (digit_val a, []) else None)"
| "parse_month _ = None"

fun parse_day :: "string \<Rightarrow> nat option" where
  "parse_day [a, b] =
     (if a = CHR ''3'' \<and> is_digit b \<and> digit_val b \<le> 1 then Some (30 + digit_val b)
      else if is_digit a \<and> 1 \<le> digit_val a \<and> digit_val a \<le> 2 \<and> is_digit b
        then Some (10 * digit_val a + digit_val b)
      else if (a = CHR ''0'' \<or> a = CHR '' '') \<and> is_digit b \<and> 1 \<le> digit_val b
        then Some (digit_val b)
      else None)"
| "parse_day [a] = (if is_digit a \<and> 1 \<le> digit_val a then Some (digit_val a) else None)"
| "parse_day _ = None"

definition make_date :: "nat \<Rightarrow> nat \<Rightarrow> nat \<Rightarrow> date option" where
  "make_date y m d =
     (if 1 \<le> y \<and> d \<le> days_in_month y m then Some \<lparr>year = y, month = m, day = d\<rparr> else None)"

fun strptime :: "string \<Rightarrow> date option" where
  "strptime (y1 # y2 # y3 # y4 # sep # rest) =
     (if is_digit y1 \<and> is_digit y2 \<and> is_digit y3 \<and> is_digit y4 \<and> sep = CHR ''-'' then
        (case parse_month rest of
           None \<Rightarrow> None
         | Some (m, rest') \<Rightarrow>
             (case parse_day rest' of
                None \<Rightarrow> None
              | Some d \<Rightarrow>
                  make_date (1000 * digit_val y1 + 100 * digit_val y2 + 10 * digit_val y3
                             + digit_val y4) m d))
      else None)"
| "strptime _ = None"

section \<open>The bulk update of a list\<close>

text \<open>
  The form of \<^verbatim>\<open>/update_list/<list_id>\<close>: \<^verbatim>\<open>request.form.get('name')\<close>, which is
  \<^verbatim>\<open>None\<close> when the field is absent, and the three multi-value fields read with
  \<^verbatim>\<open>getlist\<close>. A value of the field \<^verbatim>\<open>done\<close> is the task id it denotes.
\<close>

record update_form =
  form_name :: "string option"
  form_done :: "nat list"
  form_deadline :: "string list"
  form_description :: "string list"

text \<open>\<^verbatim>\<open>due_to_dates.index(date)\<close>: the position of the first element equal to \<open>x\<close>.\<close>

fun index :: "'a list \<Rightarrow> 'a \<Rightarrow> nat option" where
  "index [] x = None"
| "index (y # ys) x = (if y = x then Some 0 else map_option Suc (index ys x))"

text \<open>
  Lines 190 to 193: every submitted id is looked up in the whole \<^verbatim>\<open>Task\<close> table and
  the task found is marked done.
\<close>

fun complete_tasks :: "nat list \<Rightarrow> task_row list \<Rightarrow> exn + task_row list" where
  "complete_tasks [] ts = Inr ts"
| "complete_tasks (task # tasks_done) ts =
     (case update_task task (\<lambda>t. t\<lparr>task_done := True\<rparr>) ts of
        None \<Rightarrow> Inl AttributeError
      | Some ts' \<Rightarrow> complete_tasks tasks_done ts')"

text \<open>
  Lines 198 to 204. The first argument is what is left of the iteration over
  \<^verbatim>\<open>due_to_dates\<close>; the second is \<^verbatim>\<open>due_to_dates\<close> itself, which the body searches
  for the current value to get \<^verbatim>\<open>index\<close>.
\<close>

fun update_loop ::
  "string list \<Rightarrow> string list \<Rightarrow> string list \<Rightarrow> nat list \<Rightarrow> task_row list \<Rightarrow> exn + task_row list"
where
  "update_loop [] due_to_dates descriptions tasks_to_update ts = Inr ts"
| "update_loop (date # rest) due_to_dates descriptions tasks_to_update ts =
     (case index due_to_dates date of
        None \<Rightarrow> Inl ValueError
      | Some i \<Rightarrow>
          if length tasks_to_update \<le> i then Inl IndexError
          else if length descriptions \<le> i then Inl IndexError
          else
            (case update_task (tasks_to_update ! i)
                    (\<lambda>t. t\<lparr>task_description := descriptions ! i\<rparr>) ts of
               None \<Rightarrow> Inl AttributeError
             | Some ts1 \<Rightarrow>
                 if date \<noteq> [] then
                   (case strptime date of
                      None \<Rightarrow> Inl ValueError
                    | Some due_to_date \<Rightarrow>
                        (case update_task (tasks_to_update ! i)
                                (\<lambda>t. t\<lparr>task_deadline := Some due_to_date\<rparr>) ts1 of
                           None \<Rightarrow> Inl AttributeError
                         | Some ts2 \<Rightarrow>
                             update_loop rest due_to_dates descriptions tasks_to_update ts2))
                 else update_loop rest due_to_dates descriptions tasks_to_update ts1))"

text \<open>Lines 207 to 210: the flag starts true and every task not done clears it.\<close>

definition progress_of :: "task_row list \<Rightarrow> bool" where
  "progress_of ts = fold (\<lambda>task progress. if \<not> task_done task then False else progress) ts True"

definition update_list :: "state \<Rightarrow> nat \<Rightarrow> update_form \<Rightarrow> outcome" where
  "update_list s k form =
     (case find (\<lambda>l. list_id l = k) (list_todos s) of
        None \<Rightarrow> (s, [], Server_error AttributeError)
      | Some list_to_update \<Rightarrow>
          let renamed =
                (case form_name form of
                   None \<Rightarrow> list_todos s
                 | Some n \<Rightarrow>
                     map (\<lambda>l. if list_id l = k then l\<lparr>list_name := n\<rparr> else l) (list_todos s));
              tasks_to_update = map task_id (filter (\<lambda>task. \<not> task_done task) (tasks_of s k))
          in
            (case complete_tasks (form_done form) (tasks s) of
               Inl e \<Rightarrow> (s, [], Server_error e)
             | Inr ts1 \<Rightarrow>
                 (case update_loop (form_deadline form) (form_deadline form)
                         (form_description form) tasks_to_update ts1 of
                    Inl e \<Rightarrow> (s, [], Server_error e)
                  | Inr ts2 \<Rightarrow>
                      let s' = s\<lparr>list_todos := renamed, tasks := ts2\<rparr>
                      in (s', [],
                          Render_template ''create-tasks.html''
                            [Data (find (\<lambda>l. list_id l = k) (list_todos s')),
                             Completed (progress_of (tasks_of s' k))]))))"

section \<open>Authentication\<close>

text \<open>
  \<^verbatim>\<open>load_user\<close> is \<^verbatim>\<open>db.get_or_404(User, user_id)\<close>: the user with that id, or the
  request is aborted with status 404. \<^verbatim>\<open>current_user\<close> is anonymous when the session
  holds no user id. \<^verbatim>\<open>@login_required\<close> aborts with status 401 for an anonymous
  client, since the login manager is given no login view.
\<close>

definition load_user :: "state \<Rightarrow> nat \<Rightarrow> user_row option" where
  "load_user s uid = find (\<lambda>u. user_id u = uid) (users s)"

definition login_required :: "state \<Rightarrow> (user_row \<Rightarrow> outcome) \<Rightarrow> outcome" where
  "login_required s view =
     (case session_user_id s of
        None \<Rightarrow> (s, [], Abort 401)
      | Some uid \<Rightarrow>
          (case load_user s uid of
             None \<Rightarrow> (s, [], Abort 404)
           | Some current_user \<Rightarrow> view current_user))"

text \<open>
  The two WTForms forms. \<open>validate_on_submit\<close> is the result of
  \<^verbatim>\<open>form.validate_on_submit()\<close>: the request is a POST and every validator of the form
  class accepts its field. The handlers read the fields only after it holds, so each
  field is then present.
\<close>

record register_form =
  register_validate_on_submit :: bool
  register_name :: string
  register_email :: string
  register_password :: string

record login_form =
  login_validate_on_submit :: bool
  login_email :: string
  login_password :: string

text \<open>
  \<^verbatim>\<open>generate_password_hash\<close> and \<^verbatim>\<open>check_password_hash\<close> are Werkzeug's; the handlers
  take them as parameters (the first with the salt it draws for this request).
\<close>

definition register :: "(string \<Rightarrow> string) \<Rightarrow> state \<Rightarrow> register_form \<Rightarrow> outcome" where
  "register generate_password_hash s form =
     (if register_validate_on_submit form then
        let hash_and_salted_password = generate_password_hash (register_password form);
            new_user = \<lparr>user_id = fresh_id (map user_id (users s)),
                        user_email = register_email form,
                        user_password = hash_and_salted_password,
                        user_name = register_name form\<rparr>
        in
          (case find (\<lambda>u. user_email u = user_email new_user) (users s) of
             Some _ \<Rightarrow>
               (s, [''This email already exists''], Render_template ''register.html'' [Form])
           | None \<Rightarrow>
               (s\<lparr>users := users s @ [new_user], session_user_id := Some (user_id new_user)\<rparr>,
                [], Redirect ''home''))
      else (s, [], Render_template ''register.html'' [Form]))"

definition login :: "(string \<Rightarrow> string \<Rightarrow> bool) \<Rightarrow> state \<Rightarrow> login_form \<Rightarrow> outcome" where
  "login check_password_hash s form =
     (if login_validate_on_submit form then
        (case find (\<lambda>u. user_email u = login_email form) (users s) of
           None \<Rightarrow>
             (s, [''That email does not exist, please try again.''], Redirect ''login'')
         | Some user \<Rightarrow>
             if \<not> check_password_hash (user_password user) (login_password form) then
               (s, [''Invalid email or password, please try again.''],
                Render_template ''login.html'' [Form])
             else (s\<lparr>session_user_id := Some (user_id user)\<rparr>, [], Redirect ''home''))
      else (s, [], Render_template ''login.html'' [Form]))"

text \<open>
  \<^verbatim>\<open>logout_user()\<close> resolves the current user before it clears the session: a session
  id of no user aborts in \<^verbatim>\<open>load_user\<close> with status 404 and the session is kept.
\<close>

definition logout :: "state \<Rightarrow> outcome" where
  "logout s =
     (case session_user_id s of
        None \<Rightarrow> (s, [], Render_template ''index.html'' [])
      | Some uid \<Rightarrow>
          (case load_user s uid of
             None \<Rightarrow> (s, [], Abort 404)
           | Some current_user \<Rightarrow>
               (s\<lparr>session_user_id := None\<rparr>, [], Render_template ''index.html'' [])))"

definition lists_of_author :: "state \<Rightarrow> nat \<Rightarrow> list_row list" where
  "lists_of_author s uid = filter (\<lambda>l. list_author_id l = Some uid) (list_todos s)"

definition home :: "state \<Rightarrow> outcome" where
  "home s =
     (case session_user_id s of
        None \<Rightarrow> (s, [], Render_template ''index.html'' [Lists None])
      | Some uid \<Rightarrow>
          (case load_user s uid of
             None \<Rightarrow> (s, [], Abort 404)
           | Some current_user \<Rightarrow>
               (s, [], Render_template ''index.html''
                         [Lists (Some (lists_of_author s (user_id current_user)))])))"

section \<open>Lists and tasks\<close>

datatype http_method = GET | POST

text \<open>
  \<^verbatim>\<open>create_list\<close>: \<open>today\<close> is \<^verbatim>\<open>dt.today().strftime("%Y/%m/%d")\<close> and
  \<open>description\<close> is \<^verbatim>\<open>request.form.get('description')\<close>. The list is committed before
  the task is built; a task without a description violates \<^verbatim>\<open>nullable=False\<close> at the
  second commit.
\<close>

definition create_list :: "string \<Rightarrow> state \<Rightarrow> http_method \<Rightarrow> string option \<Rightarrow> outcome" where
  "create_list today s method description =
     login_required s (\<lambda>current_user.
       if method = POST then
         let new_list = \<lparr>list_id = fresh_id (map list_id (list_todos s)),
                          list_name = ''My to-do list '' @ today,
                          list_author_id = Some (user_id current_user)\<rparr>;
             s1 = s\<lparr>list_todos := list_todos s @ [new_list]\<rparr>
         in
           (case description of
              None \<Rightarrow> (s1, [], Server_error IntegrityError)
            | Some d \<Rightarrow>
                let new_task = \<lparr>task_id = fresh_id (map task_id (tasks s1)),
                                 task_done = False,
                                 task_description = d,
                                 task_tasks_list = Some (list_id new_list),
                                 task_deadline = None\<rparr>
                in (s1\<lparr>tasks := tasks s1 @ [new_task]\<rparr>, [],
                    Render_template ''create-tasks.html'' [Data (Some new_list)]))
       else (s, [], Render_template ''make-list.html'' []))"

text \<open>
  The route takes any non-negative integer as \<^verbatim>\<open>list_id\<close>; SQLite binds integers below
  2 to the power 63 only, and a larger one raises \<^verbatim>\<open>OverflowError\<close> in the query.
\<close>

definition all_task :: "state \<Rightarrow> nat \<Rightarrow> outcome" where
  "all_task s k =
     (if 2 ^ 63 \<le> k then (s, [], Server_error OverflowError)
      else
        let required_list = find (\<lambda>l. list_id l = k) (list_todos s)
        in (s, [], Render_template ''create-tasks.html'' [Data required_list]))"

text \<open>
  \<^verbatim>\<open>add_task\<close>: \<open>next_task\<close> is \<^verbatim>\<open>request.form.get('next_task')\<close>. The parent list is
  whatever the query returns, \<^verbatim>\<open>None\<close> included, and \<^verbatim>\<open>tasks_list\<close> is nullable.
\<close>

definition add_task :: "state \<Rightarrow> nat \<Rightarrow> string option \<Rightarrow> outcome" where
  "add_task s k next_task =
     (if 2 ^ 63 \<le> k then (s, [], Server_error OverflowError)
      else
        let parent_list = find (\<lambda>l. list_id l = k) (list_todos s)
        in
          (case next_task of
             None \<Rightarrow> (s, [], Server_error IntegrityError)
           | Some d \<Rightarrow>
               let new_task = \<lparr>task_id = fresh_id (map task_id (tasks s)),
                                task_done = False,
                                task_description = d,
                                task_tasks_list = map_option list_id parent_list,
                                task_deadline = None\<rparr>
               in (s\<lparr>tasks := tasks s @ [new_task]\<rparr>, [],
                   Render_template ''create-tasks.html'' [Data parent_list])))"

definition all_lists :: "state \<Rightarrow> outcome" where
  "all_lists s =
     login_required s (\<lambda>current_user.
       (s, [], Render_template ''all-lists.html''
                 [Lists (Some (lists_of_author s (user_id current_user)))]))"

text \<open>
  \<^verbatim>\<open>delete_list\<close>: \<^verbatim>\<open>db.session.delete(None)\<close> raises \<^verbatim>\<open>UnmappedInstanceError\<close>. The
  relationship \<^verbatim>\<open>tasks\<close> has the default cascade, without \<^verbatim>\<open>delete\<close>: when the list
  is deleted the ORM keeps its tasks and sets their \<^verbatim>\<open>tasks_list\<close> to NULL.
\<close>

definition delete_list :: "state \<Rightarrow> nat \<Rightarrow> outcome" where
  "delete_list s k =
     (case find (\<lambda>l. list_id l = k) (list_todos s) of
        None \<Rightarrow> (s, [], Server_error UnmappedInstanceError)
      | Some deleted_list \<Rightarrow>
          (s\<lparr>list_todos := filter (\<lambda>l. list_id l \<noteq> list_id deleted_list) (list_todos s),
             tasks := map (\<lambda>t. if task_tasks_list t = Some (list_id deleted_list)
                                then t\<lparr>task_tasks_list := None\<rparr> else t) (tasks s)\<rparr>,
           [], Redirect ''all_lists''))"

section \<open>The routes\<close>

datatype request =
  Home
  | Register register_form
  | Login login_form
  | Logout
  | Create_list http_method "string option"
  | All_task nat
  | Add_task nat "string option"
  | Update_list nat update_form
  | All_lists
  | Delete_list nat

fun handle ::
  "(string \<Rightarrow> string) \<Rightarrow> (string \<Rightarrow> string \<Rightarrow> bool) \<Rightarrow> string \<Rightarrow> state \<Rightarrow> request \<Rightarrow> outcome"
where
  "handle gen chk today s Home = home s"
| "handle gen chk today s (Register form) = register gen s form"
| "handle gen chk today s (Login form) = login chk s form"
| "handle gen chk today s Logout = logout s"
| "handle gen chk today s (Create_list method description) = create_list today s method description"
| "handle gen chk today s (All_task k) = all_task s k"
| "handle gen chk today s (Add_task k next_task) = add_task s k next_task"
| "handle gen chk today s (Update_list k form) = update_list s k form"
| "handle gen chk today s All_lists = all_lists s"
| "handle gen chk today s (Delete_list k) = delete_list s k"

section \<open>Tasks and their parent lists\<close>



section \<open>Concrete stores\<close>

definition ann :: user_row where
  "ann = \<lparr>user_id = 1, user_email = ''ann@example.org'', user_password = ''h:secret-1'',
          user_name = ''Ann''\<rparr>"

definition groceries :: list_row where
  "groceries = \<lparr>list_id = 1, list_name = ''My to-do list 2024/01/05'', list_author_id = Some 1\<rparr>"

definition buy_milk :: task_row where
  "buy_milk = \<lparr>task_id = 1, task_done = False, task_description = ''Buy milk'',
               task_tasks_list = Some 1, task_deadline = None\<rparr>"

definition buy_eggs :: task_row where
  "buy_eggs = \<lparr>task_id = 2, task_done = False, task_description = ''Buy eggs'',
               task_tasks_list = Some 1, task_deadline = None\<rparr>"

definition two_tasks :: state where
  "two_tasks = \<lparr>users = [ann], list_todos = [groceries], tasks = [buy_milk, buy_eggs],
                session_user_id = Some 1\<rparr>"

definition no_tasks :: state where
  "no_tasks = \<lparr>users = [ann], list_todos = [groceries], tasks = [], session_user_id = Some 1\<rparr>"

definition no_lists :: state where
  "no_lists = \<lparr>users = [ann], list_todos = [], tasks = [], session_user_id = Some 1\<rparr>"

definition blank_deadlines :: update_form where
  "blank_deadlines = \<lparr>form_name = None, form_done = [], form_deadline = ['''', ''''],
                      form_description = [''Buy bread'', ''Buy butter'']\<rparr>"

definition both_done :: update_form where
  "both_done = \<lparr>form_name = None, form_done = [1, 2], form_deadline = ['''', ''''],
                form_description = [''Buy bread'', ''Buy butter'']\<rparr>"

definition milk_done :: update_form where
  "milk_done = \<lparr>form_name = Some ''Saturday'', form_done = [1],
                form_deadline = [''2024-01-05'', ''''],
                form_description = [''Buy bread'', ''Buy butter'']\<rparr>"

definition nothing_submitted :: update_form where
  "nothing_submitted = \<lparr>form_name = None, form_done = [], form_deadline = [],
                        form_description = []\<rparr>"

definition ann_registers_again :: register_form where
  "ann_registers_again = \<lparr>register_validate_on_submit = True, register_name = ''Ann B'',
                          register_email = ''ann@example.org'',
                          register_password = ''secret-2''\<rparr>"

definition bob_logs_in :: login_form where
  "bob_logs_in = \<lparr>login_validate_on_submit = True, login_email = ''bob@example.org'',
                  login_password = ''secret-1''\<rparr>"

definition ann_mistypes :: login_form where
  "ann_mistypes = \<lparr>login_validate_on_submit = True, login_email = ''ann@example.org'',
                   login_password = ''secret-2''\<rparr>"

definition ann_logs_in :: login_form where
  "ann_logs_in = \<lparr>login_validate_on_submit = True, login_email = ''ann@example.org'',
                  login_password = ''secret-1''\<rparr>"

definition slash_deadline :: update_form where
  "slash_deadline = \<lparr>form_name = None, form_done = [1], form_deadline = [''05/01/2024''],
                     form_description = [''Buy bread'']\<rparr>"

definition ann_short_password :: register_form where
  "ann_short_password = \<lparr>register_validate_on_submit = False, register_name = ''Ann B'',
                         register_email = ''ann@example.org'', register_password = ''abc''\<rparr>"

definition ann_without_password :: login_form where
  "ann_without_password = \<lparr>login_validate_on_submit = False,
                           login_email = ''ann@example.org'', login_password = []\<rparr>"

text \<open>A stand-in for the two password functions, used where a store is evaluated.\<close>

definition toy_hash :: "string \<Rightarrow> string" where
  "toy_hash p = ''h:'' @ p"

definition toy_check :: "string \<Rightarrow> string \<Rightarrow> bool" where
  "toy_check h p = (h = toy_hash p)"

lemmas example_defs = two_tasks_def no_tasks_def no_lists_def ann_def groceries_def buy_milk_def
  buy_eggs_def blank_deadlines_def both_done_def milk_done_def nothing_submitted_def
  ann_registers_again_def bob_logs_in_def ann_mistypes_def ann_logs_in_def toy_hash_def
  toy_check_def slash_deadline_def ann_short_password_def ann_without_password_def

section \<open>What a bulk update does to the tasks\<close>

lemma update_task_Some:
  "update_task k f ts = Some ts' \<Longrightarrow> ts' = map (\<lambda>t. if task_id t = k then f t else t) ts"
  by (simp add: update_task_def split: option.splits)

lemma update_task_preserves:
  assumes "update_task k f ts = Some ts'" and "\<And>t. g (f t) = g t"
  shows "map g ts' = map g ts"
  using assms by (auto simp: update_task_def split: option.splits)

lemma complete_tasks_Inr:
  "complete_tasks done_ids ts = Inr ts' \<Longrightarrow>
     ts' = map (\<lambda>t. if task_id t \<in> set done_ids then t\<lparr>task_done := True\<rparr> else t) ts"
proof (induction done_ids arbitrary: ts)
  case Nil
  then show ?case by simp
next
  case (Cons k ks)
  from Cons.prems obtain ts1 where
    u: "update_task k (\<lambda>t. t\<lparr>task_done := True\<rparr>) ts = Some ts1" and
    r: "complete_tasks ks ts1 = Inr ts'"
    by (auto split: option.splits)
  have "ts1 = map (\<lambda>t. if task_id t = k then t\<lparr>task_done := True\<rparr> else t) ts"
    using u by (rule update_task_Some)
  with Cons.IH [OF r] show ?case by auto
qed

text \<open>
  The loop over the deadlines writes \<^verbatim>\<open>description\<close> and \<^verbatim>\<open>deadline\<close> only: any
  column that these two assignments leave alone is the same after the loop.
\<close>

lemma update_loop_preserves:
  assumes "\<And>t d. g (t\<lparr>task_description := d\<rparr>) = g t"
    and "\<And>t d. g (t\<lparr>task_deadline := d\<rparr>) = g t"
  shows "update_loop ds due descs ids ts = Inr ts' \<Longrightarrow> map g ts' = map g ts"
proof (induction ds arbitrary: ts)
  case Nil
  then show ?case by simp
next
  case (Cons d ds)
  from Cons.prems obtain i ts1 where
    i: "index due d = Some i" and
    u1: "update_task (ids ! i) (\<lambda>t. t\<lparr>task_description := descs ! i\<rparr>) ts = Some ts1"
    by (auto split: option.splits if_splits)
  have m1: "map g ts1 = map g ts"
    using u1 assms(1) by (rule update_task_preserves)
  show ?case
  proof (cases "d = []")
    case True
    with Cons.prems i u1 have "update_loop ds due descs ids ts1 = Inr ts'"
      by (auto split: option.splits if_splits)
    from Cons.IH [OF this] m1 show ?thesis by simp
  next
    case False
    with Cons.prems i u1 obtain dd ts2 where
      u2: "update_task (ids ! i) (\<lambda>t. t\<lparr>task_deadline := Some dd\<rparr>) ts1 = Some ts2" and
      r: "update_loop ds due descs ids ts2 = Inr ts'"
      by (auto split: option.splits if_splits)
    have "map g ts2 = map g ts1"
      using u2 assms(2) by (rule update_task_preserves)
    with Cons.IH [OF r] m1 show ?thesis by simp
  qed
qed

lemma fold_progress:
  "fold (\<lambda>task progress. if \<not> task_done task then False else progress) ts b
     = (b \<and> (\<forall>t\<in>set ts. task_done t))"
  by (induction ts arbitrary: b) auto

lemma progress_of_iff: "progress_of ts = (\<forall>t\<in>set ts. task_done t)"
  by (simp add: progress_of_def fold_progress)

text \<open>
  The two ways a bulk update ends: a server error with the state as it was, or the view
  \<^verbatim>\<open>create-tasks.html\<close> after both loops have run on the tasks.
\<close>

lemma update_list_cases:
  assumes "update_list s k form = (s', fl, r)"
  shows "(s' = s \<and> fl = [] \<and> (\<exists>e. r = Server_error e)) \<or>
         (\<exists>ts1 l. find (\<lambda>l. list_id l = k) (list_todos s) = Some l \<and>
            complete_tasks (form_done form) (tasks s) = Inr ts1 \<and>
            update_loop (form_deadline form) (form_deadline form) (form_description form)
              (map task_id (filter (\<lambda>task. \<not> task_done task) (tasks_of s k))) ts1
              = Inr (tasks s') \<and>
            users s' = users s \<and> session_user_id s' = session_user_id s \<and>
            map list_id (list_todos s') = map list_id (list_todos s) \<and>
            fl = [] \<and>
            r = Render_template ''create-tasks.html''
                  [Data (find (\<lambda>l. list_id l = k) (list_todos s')),
                   Completed (progress_of (tasks_of s' k))])"
  using assms
  by (auto simp: update_list_def Let_def split: option.splits sum.splits)

lemma update_list_tasks:
  assumes "update_list s k form = (s', fl, Render_template tpl kw)"
  shows "map task_id (tasks s') = map task_id (tasks s)"
    and "map task_tasks_list (tasks s') = map task_tasks_list (tasks s)"
    and "map task_done (tasks s')
           = map (\<lambda>t. task_done t \<or> task_id t \<in> set (form_done form)) (tasks s)"
proof -
  from update_list_cases [OF assms] obtain ts1 where
    c: "complete_tasks (form_done form) (tasks s) = Inr ts1" and
    u: "update_loop (form_deadline form) (form_deadline form) (form_description form)
          (map task_id (filter (\<lambda>task. \<not> task_done task) (tasks_of s k))) ts1 = Inr (tasks s')"
    by auto
  have ts1: "ts1 = map (\<lambda>t. if task_id t \<in> set (form_done form)
                             then t\<lparr>task_done := True\<rparr> else t) (tasks s)"
    using c by (rule complete_tasks_Inr)
  have "map task_id (tasks s') = map task_id ts1"
    using u by (rule update_loop_preserves [rotated 2]) simp_all
  then show "map task_id (tasks s') = map task_id (tasks s)"
    by (simp add: ts1 o_def if_distrib cong: if_cong)
  have "map task_tasks_list (tasks s') = map task_tasks_list ts1"
    using u by (rule update_loop_preserves [rotated 2]) simp_all
  then show "map task_tasks_list (tasks s') = map task_tasks_list (tasks s)"
    by (simp add: ts1 o_def if_distrib cong: if_cong)
  have "map task_done (tasks s') = map task_done ts1"
    using u by (rule update_loop_preserves [rotated 2]) simp_all
  then show "map task_done (tasks s')
           = map (\<lambda>t. task_done t \<or> task_id t \<in> set (form_done form)) (tasks s)"
    by (auto simp add: ts1)
qed

lemma nth_of_map_eq:
  assumes "map f xs = map g ys" and "i < length ys"
  shows "f (xs ! i) = g (ys ! i)"
proof -
  have "length xs = length ys" using assms(1) by (rule map_eq_imp_length_eq)
  with assms(2) have "map f xs ! i = f (xs ! i)" and "map g ys ! i = g (ys ! i)" by simp_all
  with assms(1) show ?thesis by simp
qed

lemma milk_done_result:
  "update_list two_tasks 1 milk_done
     = (two_tasks\<lparr>list_todos := [groceries\<lparr>list_name := ''Saturday''\<rparr>],
                   tasks := [buy_milk\<lparr>task_done := True, task_description := ''Buy bread'',
                                      task_deadline := Some \<lparr>year = 2024, month = 1, day = 5\<rparr>\<rparr>,
                             buy_eggs\<lparr>task_description := ''Buy butter''\<rparr>]\<rparr>, [],
        Render_template ''create-tasks.html''
          [Data (Some (groceries\<lparr>list_name := ''Saturday''\<rparr>)), Completed False])"
  by (simp add: update_list_def tasks_of_def update_task_def progress_of_def example_defs
      is_digit_def digit_val_def make_date_def days_in_month_def is_leap_def)

subsection \<open>Positions in the loop over the deadlines\<close>

lemma index_Some:
  "index xs x = Some i \<Longrightarrow> i < length xs \<and> xs ! i = x"
proof (induction xs arbitrary: i)
  case Nil
  then show ?case by simp
next
  case (Cons y ys)
  show ?case
  proof (cases "y = x")
    case True
    with Cons.prems show ?thesis by simp
  next
    case False
    with Cons.prems obtain j where "index ys x = Some j" and "i = Suc j" by auto
    with Cons.IH [of j] show ?thesis by simp
  qed
qed

lemma index_nth_distinct:
  "distinct xs \<Longrightarrow> i < length xs \<Longrightarrow> index xs (xs ! i) = Some i"
proof (induction xs arbitrary: i)
  case Nil
  then show ?case by simp
next
  case (Cons y ys)
  show ?case
  proof (cases i)
    case 0
    then show ?thesis by simp
  next
    case (Suc j)
    with Cons.prems have "ys ! j \<in> set ys" and "y \<notin> set ys" by simp_all
    then have "y \<noteq> ys ! j" by blast
    with Cons.IH [of j] Cons.prems Suc show ?thesis by simp
  qed
qed

lemma update_task_nth:
  assumes "update_task k f ts = Some ts'"
  shows "length ts' = length ts"
    and "j < length ts \<Longrightarrow> ts' ! j = (if task_id (ts ! j) = k then f (ts ! j) else ts ! j)"
  using update_task_Some [OF assms] by simp_all

lemma update_loop_step:
  assumes "update_loop (d # ds) due descs ids ts = Inr ts'"
  obtains i ts1 where "index due d = Some i" and "i < length ids" and "i < length descs"
    and "length ts1 = length ts"
    and "\<And>j. j < length ts \<Longrightarrow> task_id (ts1 ! j) = task_id (ts ! j)"
    and "\<And>j. j < length ts \<Longrightarrow> task_id (ts ! j) \<noteq> ids ! i \<Longrightarrow> ts1 ! j = ts ! j"
    and "\<And>j. j < length ts \<Longrightarrow> task_id (ts ! j) = ids ! i \<Longrightarrow>
           task_description (ts1 ! j) = descs ! i \<and>
           task_deadline (ts1 ! j) = (if d = [] then task_deadline (ts ! j) else strptime d)"
    and "d \<noteq> [] \<Longrightarrow> strptime d \<noteq> None"
    and "update_loop ds due descs ids ts1 = Inr ts'"
proof -
  from assms obtain i ta where
    i: "index due d = Some i" and b: "i < length ids" "i < length descs" and
    u1: "update_task (ids ! i) (\<lambda>t. t\<lparr>task_description := descs ! i\<rparr>) ts = Some ta"
    by (auto split: option.splits if_splits)
  show thesis
  proof (cases "d = []")
    case True
    with assms i b u1 have r: "update_loop ds due descs ids ta = Inr ts'"
      by (auto split: option.splits if_splits)
    show thesis
      by (rule that [OF i b update_task_nth(1) [OF u1] _ _ _ _ r])
        (simp_all add: update_task_nth(2) [OF u1] True)
  next
    case False
    with assms i b u1 obtain dd tb where
      p: "strptime d = Some dd" and
      u2: "update_task (ids ! i) (\<lambda>t. t\<lparr>task_deadline := Some dd\<rparr>) ta = Some tb" and
      r: "update_loop ds due descs ids tb = Inr ts'"
      by (auto split: option.splits if_splits)
    have l: "length tb = length ts"
      using update_task_nth(1) [OF u1] update_task_nth(1) [OF u2] by simp
    show thesis
      by (rule that [OF i b l _ _ _ _ r])
        (simp_all add: update_task_nth(2) [OF u1] update_task_nth(2) [OF u2]
          update_task_nth(1) [OF u1] False p)
  qed
qed

lemma update_loop_in_range:
  assumes "update_loop ds due descs ids ts = Inr ts'" and "d \<in> set ds"
    and "index due d = Some i"
  shows "i < length ids \<and> i < length descs"
  using assms
proof (induction ds arbitrary: ts)
  case Nil
  then show ?case by simp
next
  case (Cons e es)
  from Cons.prems(1) obtain n ts1 where
    n: "index due e = Some n" and nb: "n < length ids" "n < length descs" and
    "length ts1 = length ts" and
    "\<And>j. j < length ts \<Longrightarrow> task_id (ts1 ! j) = task_id (ts ! j)" and
    "\<And>j. j < length ts \<Longrightarrow> task_id (ts ! j) \<noteq> ids ! n \<Longrightarrow> ts1 ! j = ts ! j" and
    "\<And>j. j < length ts \<Longrightarrow> task_id (ts ! j) = ids ! n \<Longrightarrow>
           task_description (ts1 ! j) = descs ! n \<and>
           task_deadline (ts1 ! j) = (if e = [] then task_deadline (ts ! j) else strptime e)" and
    "e \<noteq> [] \<Longrightarrow> strptime e \<noteq> None" and
    r: "update_loop es due descs ids ts1 = Inr ts'"
    by (rule update_loop_step) blast
  show ?case
  proof (cases "d = e")
    case True
    with n nb Cons.prems(3) show ?thesis by simp
  next
    case False
    with Cons.prems(2) have "d \<in> set es" by simp
    from Cons.IH [OF r this Cons.prems(3)] show ?thesis .
  qed
qed

lemma update_loop_frame:
  assumes "update_loop ds due descs ids ts = Inr ts'" and "j < length ts"
    and "\<forall>d\<in>set ds. \<forall>i. index due d = Some i \<longrightarrow> task_id (ts ! j) \<noteq> ids ! i"
  shows "ts' ! j = ts ! j"
  using assms
proof (induction ds arbitrary: ts)
  case Nil
  then show ?case by simp
next
  case (Cons d ds)
  from Cons.prems(1) obtain i ts1 where
    i: "index due d = Some i" and "i < length ids" "i < length descs" and
    l: "length ts1 = length ts" and
    k: "\<And>j. j < length ts \<Longrightarrow> task_id (ts1 ! j) = task_id (ts ! j)" and
    f: "\<And>j. j < length ts \<Longrightarrow> task_id (ts ! j) \<noteq> ids ! i \<Longrightarrow> ts1 ! j = ts ! j" and
    "\<And>j. j < length ts \<Longrightarrow> task_id (ts ! j) = ids ! i \<Longrightarrow>
           task_description (ts1 ! j) = descs ! i \<and>
           task_deadline (ts1 ! j) = (if d = [] then task_deadline (ts ! j) else strptime d)" and
    "d \<noteq> [] \<Longrightarrow> strptime d \<noteq> None" and
    r: "update_loop ds due descs ids ts1 = Inr ts'"
    by (rule update_loop_step) blast
  from Cons.prems(3) i have "task_id (ts ! j) \<noteq> ids ! i" by simp
  with f Cons.prems(2) have e: "ts1 ! j = ts ! j" by simp
  have "ts' ! j = ts1 ! j"
  proof (rule Cons.IH [OF r])
    show "j < length ts1" using l Cons.prems(2) by simp
    show "\<forall>d\<in>set ds. \<forall>i. index due d = Some i \<longrightarrow> task_id (ts1 ! j) \<noteq> ids ! i"
      using Cons.prems(3) e by simp
  qed
  with e show ?case by simp
qed

lemma update_loop_positional:
  assumes "update_loop ds due descs ids ts = Inr ts'"
    and "distinct ds" and "distinct ids"
    and "d \<in> set ds" and "index due d = Some i"
    and "j < length ts" and "task_id (ts ! j) = ids ! i"
  shows "task_description (ts' ! j) = descs ! i \<and>
         task_deadline (ts' ! j) = (if d = [] then task_deadline (ts ! j) else strptime d)"
  using assms
proof (induction ds arbitrary: ts)
  case Nil
  then show ?case by simp
next
  case (Cons e es)
  from Cons.prems(1) obtain n ts1 where
    n: "index due e = Some n" and nb: "n < length ids" "n < length descs" and
    l: "length ts1 = length ts" and
    k: "\<And>j. j < length ts \<Longrightarrow> task_id (ts1 ! j) = task_id (ts ! j)" and
    f: "\<And>j. j < length ts \<Longrightarrow> task_id (ts ! j) \<noteq> ids ! n \<Longrightarrow> ts1 ! j = ts ! j" and
    h: "\<And>j. j < length ts \<Longrightarrow> task_id (ts ! j) = ids ! n \<Longrightarrow>
           task_description (ts1 ! j) = descs ! n \<and>
           task_deadline (ts1 ! j) = (if e = [] then task_deadline (ts ! j) else strptime e)" and
    "e \<noteq> [] \<Longrightarrow> strptime e \<noteq> None" and
    r: "update_loop es due descs ids ts1 = Inr ts'"
    by (rule update_loop_step) blast
  have j1: "j < length ts1" using l Cons.prems(6) by simp
  have id1: "task_id (ts1 ! j) = ids ! i" using k [OF Cons.prems(6)] Cons.prems(7) by simp
  show ?case
  proof (cases "d = e")
    case True
    with n Cons.prems(5) have ni: "n = i" by simp
    have "ts' ! j = ts1 ! j"
    proof (rule update_loop_frame [OF r j1], intro ballI allI impI)
      fix d' i'
      assume d': "d' \<in> set es" and i': "index due d' = Some i'"
      from d' Cons.prems(2) have "d' \<noteq> e" by auto
      with index_Some [OF i'] index_Some [OF n] have "i' \<noteq> n" by auto
      moreover have "i' < length ids"
        using update_loop_in_range [OF r d' i'] by simp
      ultimately have "ids ! i' \<noteq> ids ! n"
        using nb(1) Cons.prems(3) by (simp add: nth_eq_iff_index_eq)
      with id1 ni show "task_id (ts1 ! j) \<noteq> ids ! i'" by simp
    qed
    with h [OF Cons.prems(6)] Cons.prems(7) True ni show ?thesis by simp
  next
    case False
    with Cons.prems(4) have d: "d \<in> set es" by simp
    from Cons.prems(2) have de: "distinct es" by simp
    from index_Some [OF Cons.prems(5)] index_Some [OF n] False have "i \<noteq> n" by auto
    moreover have "i < length ids"
      using update_loop_in_range [OF r d Cons.prems(5)] by simp
    ultimately have "ids ! i \<noteq> ids ! n"
      using nb(1) Cons.prems(3) by (simp add: nth_eq_iff_index_eq)
    with f [OF Cons.prems(6)] Cons.prems(7) have "ts1 ! j = ts ! j" by simp
    with Cons.IH [OF r de Cons.prems(3) d Cons.prems(5) j1 id1] show ?thesis by simp
  qed
qed

text \<open>
  When no deadline value is submitted twice, the loop does pair by position: after a bulk
  update that is carried out, the task at position \<open>i\<close> of the not-done tasks of the list
  (taken before the update) has the \<open>i\<close>-th submitted description, and the \<open>i\<close>-th
  submitted deadline unless that is the empty string.
\<close>

lemma update_list_distinct_deadlines:
  assumes "update_list s k form = (s', fl, Render_template tpl kw)"
    and "distinct (form_deadline form)"
    and "distinct (map task_id (tasks s))"
    and "i < length (form_deadline form)"
    and "j < length (tasks s)"
    and "task_id (tasks s ! j)
           = map task_id (filter (\<lambda>task. \<not> task_done task) (tasks_of s k)) ! i"
  shows "task_description (tasks s' ! j) = form_description form ! i \<and>
         task_deadline (tasks s' ! j)
           = (if form_deadline form ! i = [] then task_deadline (tasks s ! j)
              else strptime (form_deadline form ! i))"
proof -
  let ?ids = "map task_id (filter (\<lambda>task. \<not> task_done task) (tasks_of s k))"
  from update_list_cases [OF assms(1)] obtain ts1 where
    c: "complete_tasks (form_done form) (tasks s) = Inr ts1" and
    u: "update_loop (form_deadline form) (form_deadline form) (form_description form)
          ?ids ts1 = Inr (tasks s')"
    by auto
  have ts1: "ts1 = map (\<lambda>t. if task_id t \<in> set (form_done form)
                             then t\<lparr>task_done := True\<rparr> else t) (tasks s)"
    using c by (rule complete_tasks_Inr)
  have d: "distinct ?ids"
    using assms(3) by (simp add: tasks_of_def distinct_map_filter)
  have ix: "index (form_deadline form) (form_deadline form ! i) = Some i"
    using assms(2,4) by (rule index_nth_distinct)
  have m: "form_deadline form ! i \<in> set (form_deadline form)"
    using assms(4) by simp
  have j1: "j < length ts1" using assms(5) by (simp add: ts1)
  have id1: "task_id (ts1 ! j) = ?ids ! i" using assms(5,6) by (simp add: ts1)
  have dl: "task_deadline (ts1 ! j) = task_deadline (tasks s ! j)"
    using assms(5) by (simp add: ts1)
  from update_loop_positional [OF u assms(2) d m ix j1 id1] dl show ?thesis by simp
qed

text \<open>
  Claim C1. The bulk update pairs the submitted deadlines and descriptions with the
  not-done tasks of the list by position, also when a deadline value occurs twice.

  The code does not: \<^verbatim>\<open>index = due_to_dates.index(date)\<close> is the position of the
  \<^emph>\<open>first\<close> occurrence of the value. With two not-done tasks and the deadlines
  \<^verbatim>\<open>["", ""]\<close>, both iterations get index 0: the first task receives the first
  description twice and the second task keeps its old description. Without a repeated
  value the pairing is by position (\<open>update_list_distinct_deadlines\<close>).
\<close>

theorem update_list_repeated_deadline:
  "update_list two_tasks 1 blank_deadlines
     = (two_tasks\<lparr>tasks := [buy_milk\<lparr>task_description := ''Buy bread''\<rparr>, buy_eggs]\<rparr>, [],
        Render_template ''create-tasks.html'' [Data (Some groceries), Completed False])"
  by (simp add: update_list_def tasks_of_def update_task_def progress_of_def example_defs)

text \<open>
  Claim C2. A view, an added task, a bulk update or a deletion with a list id that is not
  in the store fails with a 404-style response.

  None of the four does. The query gives \<^verbatim>\<open>None\<close> and the handler goes on:
  \<^verbatim>\<open>all_task\<close> renders the view with \<^verbatim>\<open>data=None\<close>, \<^verbatim>\<open>add_task\<close> commits a task with
  no parent list, \<^verbatim>\<open>update_list\<close> and \<^verbatim>\<open>delete_list\<close> raise (a server error). Only
  \<^verbatim>\<open>load_user\<close> fetches with \<^verbatim>\<open>get_or_404\<close>.
\<close>

theorem absent_list_id_responses:
  "all_task no_lists 7 = (no_lists, [], Render_template ''create-tasks.html'' [Data None]) \<and>
   add_task no_lists 7 (Some ''Buy milk'')
     = (no_lists\<lparr>tasks := [\<lparr>task_id = 1, task_done = False, task_description = ''Buy milk'',
                              task_tasks_list = None, task_deadline = None\<rparr>]\<rparr>, [],
        Render_template ''create-tasks.html'' [Data None]) \<and>
   update_list no_lists 7 nothing_submitted = (no_lists, [], Server_error AttributeError) \<and>
   delete_list no_lists 7 = (no_lists, [], Server_error UnmappedInstanceError)"
  by (simp add: all_task_def add_task_def update_list_def delete_list_def fresh_id_def
      example_defs)

section \<open>Registration and login\<close>

text \<open>
  Claim C3, as stated: every registration whose email is the email of an existing user
  is answered with the registration form and a warning. The check for the email comes
  after the validation of the form: a submission that fails the validation (here a
  password of three characters) is answered with the form and no flashed message.
\<close>

theorem register_invalid_form_no_warning:
  "(\<exists>u\<in>set (users two_tasks). user_email u = register_email ann_short_password) \<and>
   register toy_hash two_tasks ann_short_password
     = (two_tasks, [], Render_template ''register.html'' [Form])"
  by (simp add: register_def example_defs)

text \<open>
  Claim C3, amended. A registration whose email is the email of an existing user leaves
  the store and the session as they were and renders the registration form again; it
  flashes \<^verbatim>\<open>This email already exists\<close> when the submission passes the validation of
  the form, and nothing otherwise.
\<close>

theorem register_existing_email:
  assumes "\<exists>u\<in>set (users s). user_email u = register_email form"
  shows "register gen s form
           = (s, if register_validate_on_submit form then [''This email already exists''] else [],
              Render_template ''register.html'' [Form])"
proof -
  from assms have "find (\<lambda>u. user_email u = register_email form) (users s) \<noteq> None"
    by (auto simp: find_None_iff)
  then show ?thesis
    by (auto simp: register_def Let_def)
qed

theorem register_existing_email_witness:
  "(\<exists>u\<in>set (users two_tasks). user_email u = register_email ann_registers_again) \<and>
   register toy_hash two_tasks ann_registers_again
     = (two_tasks, [''This email already exists''], Render_template ''register.html'' [Form]) \<and>
   (\<exists>u\<in>set (users two_tasks). user_email u = register_email ann_short_password) \<and>
   register toy_hash two_tasks ann_short_password
     = (two_tasks, [], Render_template ''register.html'' [Form])"
proof -
  have h: "\<exists>u\<in>set (users two_tasks). user_email u = register_email ann_registers_again"
    "\<exists>u\<in>set (users two_tasks). user_email u = register_email ann_short_password"
    by (simp_all add: example_defs)
  have v: "register_validate_on_submit ann_registers_again"
    "\<not> register_validate_on_submit ann_short_password"
    by (simp_all add: example_defs)
  from register_existing_email [OF h(1), of toy_hash] register_existing_email [OF h(2), of toy_hash] v h show ?thesis by simp
qed

text \<open>
  Claim C4, as stated: a login that fails is answered with the same generic message
  whether the email is unknown or the password is wrong. The two messages differ.
\<close>

theorem login_failure_messages_differ:
  "fst (snd (login toy_check two_tasks bob_logs_in))
     \<noteq> fst (snd (login toy_check two_tasks ann_mistypes))"
  by (simp add: login_def example_defs)

text \<open>
  Claim C4, amended. For a submission that passes the validation of the form: an unknown
  email leaves state and session as they were, flashes
  \<^verbatim>\<open>That email does not exist, please try again.\<close> and redirects to the login page; a
  known email with a password that does not match leaves them as they were, flashes
  \<^verbatim>\<open>Invalid email or password, please try again.\<close> and renders the login form; a known
  email with a matching password stores the user's id in the session and redirects
  home. A submission that does not pass the validation renders the login form, flashes
  nothing and changes nothing. Whenever the answer is the redirect home, or the state
  has changed, the submission has passed the validation with a known email and a
  matching password.
\<close>

theorem login_outcomes:
  "(login_validate_on_submit form \<longrightarrow>
      ((\<forall>u\<in>set (users s). user_email u \<noteq> login_email form) \<longrightarrow>
         login chk s form
           = (s, [''That email does not exist, please try again.''], Redirect ''login'')) \<and>
      (\<forall>user. find (\<lambda>u. user_email u = login_email form) (users s) = Some user \<longrightarrow>
         (\<not> chk (user_password user) (login_password form) \<longrightarrow>
            login chk s form
              = (s, [''Invalid email or password, please try again.''],
                 Render_template ''login.html'' [Form])) \<and>
         (chk (user_password user) (login_password form) \<longrightarrow>
            login chk s form
              = (s\<lparr>session_user_id := Some (user_id user)\<rparr>, [], Redirect ''home'')))) \<and>
   (\<not> login_validate_on_submit form \<longrightarrow>
      login chk s form = (s, [], Render_template ''login.html'' [Form])) \<and>
   (snd (snd (login chk s form)) = Redirect ''home'' \<or> fst (login chk s form) \<noteq> s \<longrightarrow>
      login_validate_on_submit form \<and>
      (\<exists>user. find (\<lambda>u. user_email u = login_email form) (users s) = Some user \<and>
              chk (user_password user) (login_password form) \<and>
              login chk s form
                = (s\<lparr>session_user_id := Some (user_id user)\<rparr>, [], Redirect ''home'')))"
proof -
  have "find (\<lambda>u. user_email u = login_email form) (users s) = None"
    if "\<forall>u\<in>set (users s). user_email u \<noteq> login_email form"
    using that by (simp add: find_None_iff)
  then show ?thesis
    by (auto simp: login_def split: option.splits)
qed

theorem login_outcomes_witness:
  "login toy_check two_tasks bob_logs_in
     = (two_tasks, [''That email does not exist, please try again.''], Redirect ''login'') \<and>
   login toy_check two_tasks ann_mistypes
     = (two_tasks, [''Invalid email or password, please try again.''],
        Render_template ''login.html'' [Form]) \<and>
   login toy_check (two_tasks\<lparr>session_user_id := None\<rparr>) ann_logs_in
     = (two_tasks\<lparr>session_user_id := Some 1\<rparr>, [], Redirect ''home'') \<and>
   login toy_check (two_tasks\<lparr>session_user_id := None\<rparr>) ann_without_password
     = (two_tasks\<lparr>session_user_id := None\<rparr>, [], Render_template ''login.html'' [Form])"
proof -
  have v: "login_validate_on_submit bob_logs_in" "login_validate_on_submit ann_mistypes"
    "login_validate_on_submit ann_logs_in" "\<not> login_validate_on_submit ann_without_password"
    by (simp_all add: example_defs)
  have f: "find (\<lambda>u. user_email u = login_email ann_mistypes) (users two_tasks) = Some ann"
    "find (\<lambda>u. user_email u = login_email ann_logs_in)
       (users (two_tasks\<lparr>session_user_id := None\<rparr>)) = Some ann"
    by (simp_all add: example_defs)
  have n: "\<forall>u\<in>set (users two_tasks). user_email u \<noteq> login_email bob_logs_in"
    by (simp add: example_defs)
  have p: "\<not> toy_check (user_password ann) (login_password ann_mistypes)"
    "toy_check (user_password ann) (login_password ann_logs_in)"
    by (simp_all add: example_defs)
  have i: "user_id ann = 1" by (simp add: example_defs)
  from login_outcomes [of bob_logs_in two_tasks toy_check] v(1) n
  have 1: "login toy_check two_tasks bob_logs_in
     = (two_tasks, [''That email does not exist, please try again.''], Redirect ''login'')"
    by blast
  from login_outcomes [of ann_mistypes two_tasks toy_check] v(2) f(1) p(1)
  have 2: "login toy_check two_tasks ann_mistypes
     = (two_tasks, [''Invalid email or password, please try again.''],
        Render_template ''login.html'' [Form])"
    by blast
  from login_outcomes [of ann_logs_in "two_tasks\<lparr>session_user_id := None\<rparr>" toy_check] v(3) f(2) p(2)
  have 3: "login toy_check (two_tasks\<lparr>session_user_id := None\<rparr>) ann_logs_in
     = (two_tasks\<lparr>session_user_id := None\<rparr>\<lparr>session_user_id := Some (user_id ann)\<rparr>, [],
        Redirect ''home'')"
    by blast
  from login_outcomes [of ann_without_password "two_tasks\<lparr>session_user_id := None\<rparr>" toy_check] v(4)
  have 4: "login toy_check (two_tasks\<lparr>session_user_id := None\<rparr>) ann_without_password
     = (two_tasks\<lparr>session_user_id := None\<rparr>, [], Render_template ''login.html'' [Form])"
    by blast
  from 1 2 3 4 i show ?thesis by simp
qed

section \<open>Creating a list\<close>

lemma fold_max_ge: "(a::nat) \<le> fold max ids a"
proof (induction ids arbitrary: a)
  case Nil
  show ?case by simp
next
  case (Cons k ks)
  have "a \<le> max k a" by simp
  also have "\<dots> \<le> fold max ks (max k a)" by (rule Cons.IH)
  finally show ?case by simp
qed

lemma fold_max_mem: "k \<in> set ids \<Longrightarrow> k \<le> fold max ids (a::nat)"
proof (induction ids arbitrary: a)
  case Nil
  then show ?case by simp
next
  case (Cons j js)
  show ?case
  proof (cases "k = j")
    case True
    have "k \<le> max j a" using True by simp
    also have "\<dots> \<le> fold max js (max j a)" by (rule fold_max_ge)
    finally show ?thesis by simp
  next
    case False
    with Cons.prems have "k \<in> set js" by simp
    from Cons.IH [OF this] show ?thesis by simp
  qed
qed

lemma fresh_id_notin: "fresh_id ids \<notin> set ids"
proof
  assume "fresh_id ids \<in> set ids"
  from fold_max_mem [OF this, of 0] show False by (simp add: fresh_id_def)
qed

text \<open>
  Claim C5, as stated: every authenticated POST to \<^verbatim>\<open>/new-list\<close> creates one list and
  one task. A POST without the field \<^verbatim>\<open>description\<close> commits the list, then fails on
  the task, whose description may not be NULL: one list, no task.
\<close>

theorem create_list_without_description:
  "create_list ''2024/01/05'' no_lists POST None
     = (no_lists\<lparr>list_todos := [groceries]\<rparr>, [], Server_error IntegrityError)"
  by (simp add: create_list_def login_required_def load_user_def fresh_id_def example_defs)

text \<open>
  Claim C5, amended. For every authenticated POST to \<^verbatim>\<open>/new-list\<close> that carries a
  description, exactly one row is added to each of \<^verbatim>\<open>ListTODO\<close> and \<^verbatim>\<open>Task\<close> and
  nothing else changes: the list has a new id, the date-stamped name and the caller as
  author; the task has a new id, the submitted description, \<^verbatim>\<open>done\<close> false, no deadline
  and the new list as parent.
\<close>

theorem create_list_one_list_one_task:
  assumes "session_user_id s = Some uid" and "load_user s uid = Some current_user"
  shows "\<exists>new_list new_task.
           create_list today s POST (Some d)
             = (s\<lparr>list_todos := list_todos s @ [new_list], tasks := tasks s @ [new_task]\<rparr>, [],
                Render_template ''create-tasks.html'' [Data (Some new_list)]) \<and>
           list_id new_list \<notin> list_id ` set (list_todos s) \<and>
           list_name new_list = ''My to-do list '' @ today \<and>
           list_author_id new_list = Some (user_id current_user) \<and>
           task_id new_task \<notin> task_id ` set (tasks s) \<and>
           task_description new_task = d \<and>
           \<not> task_done new_task \<and>
           task_deadline new_task = None \<and>
           task_tasks_list new_task = Some (list_id new_list)"
proof -
  let ?l = "\<lparr>list_id = fresh_id (map list_id (list_todos s)),
            list_name = ''My to-do list '' @ today,
            list_author_id = Some (user_id current_user)\<rparr>"
  let ?t = "\<lparr>task_id = fresh_id (map task_id (tasks s)), task_done = False,
            task_description = d, task_tasks_list = Some (list_id ?l),
            task_deadline = None\<rparr>"
  have "create_list today s POST (Some d)
          = (s\<lparr>list_todos := list_todos s @ [?l], tasks := tasks s @ [?t]\<rparr>, [],
             Render_template ''create-tasks.html'' [Data (Some ?l)])"
    using assms by (simp add: create_list_def login_required_def Let_def)
  moreover have "list_id ?l \<notin> list_id ` set (list_todos s)"
    using fresh_id_notin [of "map list_id (list_todos s)"] by simp
  moreover have "task_id ?t \<notin> task_id ` set (tasks s)"
    using fresh_id_notin [of "map task_id (tasks s)"] by simp
  ultimately show ?thesis
    by (intro exI [of _ ?l] exI [of _ ?t]) simp
qed

theorem create_list_one_list_one_task_witness:
  "session_user_id no_lists = Some 1 \<and> load_user no_lists 1 = Some ann \<and>
   (\<exists>new_list new_task.
      create_list ''2024/01/05'' no_lists POST (Some ''Buy milk'')
        = (no_lists\<lparr>list_todos := list_todos no_lists @ [new_list],
                     tasks := tasks no_lists @ [new_task]\<rparr>, [],
           Render_template ''create-tasks.html'' [Data (Some new_list)]) \<and>
      list_name new_list = ''My to-do list 2024/01/05'' \<and>
      list_author_id new_list = Some 1 \<and>
      task_description new_task = ''Buy milk'' \<and>
      \<not> task_done new_task \<and>
      task_deadline new_task = None \<and>
      task_tasks_list new_task = Some (list_id new_list))"
proof -
  have h1: "session_user_id no_lists = Some 1" by (simp add: example_defs)
  have h2: "load_user no_lists 1 = Some ann" by (simp add: load_user_def example_defs)
  have i: "user_id ann = 1" by (simp add: example_defs)
  from create_list_one_list_one_task [OF h1 h2, of "''2024/01/05''" "''Buy milk''"]
  obtain new_list new_task where
    "create_list ''2024/01/05'' no_lists POST (Some ''Buy milk'')
        = (no_lists\<lparr>list_todos := list_todos no_lists @ [new_list],
                     tasks := tasks no_lists @ [new_task]\<rparr>, [],
           Render_template ''create-tasks.html'' [Data (Some new_list)]) \<and>
      list_name new_list = ''My to-do list '' @ ''2024/01/05'' \<and>
      list_author_id new_list = Some (user_id ann) \<and>
      task_description new_task = ''Buy milk'' \<and>
      \<not> task_done new_task \<and>
      task_deadline new_task = None \<and>
      task_tasks_list new_task = Some (list_id new_list)"
    by blast
  with h1 h2 i show ?thesis by auto
qed

section \<open>The done flag\<close>

lemma create_list_tasks:
  "create_list today s m d = (s', fl, r) \<Longrightarrow> tasks s' = tasks s \<or> (\<exists>t. tasks s' = tasks s @ [t])"
  by (auto simp: create_list_def login_required_def Let_def split: option.splits if_splits)

lemma add_task_tasks:
  "add_task s k d = (s', fl, r) \<Longrightarrow> tasks s' = tasks s \<or> (\<exists>t. tasks s' = tasks s @ [t])"
  by (auto simp: add_task_def Let_def split: option.splits if_splits)

lemma delete_list_tasks:
  "delete_list s k = (s', fl, r) \<Longrightarrow>
     map task_id (tasks s') = map task_id (tasks s) \<and>
     map task_done (tasks s') = map task_done (tasks s)"
  by (auto simp: delete_list_def split: option.splits)

lemma read_only_tasks:
  "home s = (s', fl, r) \<Longrightarrow> tasks s' = tasks s"
  "register gen s rf = (s', fl, r) \<Longrightarrow> tasks s' = tasks s"
  "login chk s lf = (s', fl, r) \<Longrightarrow> tasks s' = tasks s"
  "logout s = (s', fl, r) \<Longrightarrow> tasks s' = tasks s"
  "all_task s k = (s', fl, r) \<Longrightarrow> tasks s' = tasks s"
  "all_lists s = (s', fl, r) \<Longrightarrow> tasks s' = tasks s"
  by (auto simp: home_def register_def login_def logout_def all_task_def all_lists_def
      login_required_def Let_def split: option.splits if_splits)

lemma update_list_done_kept:
  assumes "update_list s k form = (s', fl, r)"
  shows "map task_id (tasks s') = map task_id (tasks s) \<and>
         (\<forall>i<length (tasks s). task_done (tasks s ! i) \<longrightarrow> task_done (tasks s' ! i))"
proof (cases r)
  case (Render_template tpl kw)
  with assms have a: "update_list s k form = (s', fl, Render_template tpl kw)" by simp
  have "\<And>i. i < length (tasks s) \<Longrightarrow> task_done (tasks s ! i) \<Longrightarrow> task_done (tasks s' ! i)"
    using nth_of_map_eq [OF update_list_tasks(3) [OF a]] by simp
  with update_list_tasks(1) [OF a] show ?thesis by simp
qed (use update_list_cases [OF assms] in auto)

lemma handle_done_kept:
  assumes "handle gen chk today s req = (s', fl, r)"
  shows "length (tasks s) \<le> length (tasks s') \<and>
         (\<forall>i<length (tasks s). task_id (tasks s' ! i) = task_id (tasks s ! i) \<and>
            (task_done (tasks s ! i) \<longrightarrow> task_done (tasks s' ! i)))"
proof (cases req)
  case (Create_list m d)
  with assms create_list_tasks [of today s m d s' fl r] show ?thesis
    by (auto simp: nth_append)
next
  case (Add_task k d)
  with assms add_task_tasks [of s k d s' fl r] show ?thesis
    by (auto simp: nth_append)
next
  case (Update_list k form)
  with assms have a: "update_list s k form = (s', fl, r)" by simp
  from update_list_done_kept [OF a] have
    m: "map task_id (tasks s') = map task_id (tasks s)" and
    d: "\<forall>i<length (tasks s). task_done (tasks s ! i) \<longrightarrow> task_done (tasks s' ! i)"
    by simp_all
  from m have "length (tasks s') = length (tasks s)" by (rule map_eq_imp_length_eq)
  with d nth_of_map_eq [OF m] show ?thesis by simp
next
  case (Delete_list k)
  with assms have a: "delete_list s k = (s', fl, r)" by simp
  from delete_list_tasks [OF a] have
    m: "map task_id (tasks s') = map task_id (tasks s)" and
    d: "map task_done (tasks s') = map task_done (tasks s)"
    by simp_all
  from m have "length (tasks s') = length (tasks s)" by (rule map_eq_imp_length_eq)
  with nth_of_map_eq [OF d] nth_of_map_eq [OF m] show ?thesis by simp
qed (use assms read_only_tasks in auto)

subsection \<open>When a bulk update is carried out\<close>

lemma update_task_total:
  assumes "k \<in> task_id ` set ts"
  shows "update_task k f ts = Some (map (\<lambda>t. if task_id t = k then f t else t) ts)"
proof -
  from assms have "find (\<lambda>t. task_id t = k) ts \<noteq> None"
    by (auto simp: find_None_iff)
  then show ?thesis by (auto simp: update_task_def)
qed

lemma complete_tasks_total:
  "set done_ids \<subseteq> task_id ` set ts \<Longrightarrow> \<exists>ts'. complete_tasks done_ids ts = Inr ts'"
proof (induction done_ids arbitrary: ts)
  case Nil
  show ?case by simp
next
  case (Cons k ks)
  let ?ts1 = "map (\<lambda>t. if task_id t = k then t\<lparr>task_done := True\<rparr> else t) ts"
  from Cons.prems have u: "update_task k (\<lambda>t. t\<lparr>task_done := True\<rparr>) ts = Some ?ts1"
    by (intro update_task_total) simp
  have "map task_id ?ts1 = map task_id ts"
    using u by (rule update_task_preserves) simp
  then have "task_id ` set ?ts1 = task_id ` set ts" by (metis set_map)
  with Cons.prems have "set ks \<subseteq> task_id ` set ?ts1" by simp
  from Cons.IH [OF this] u show ?case by simp
qed

lemma update_loop_total:
  assumes "\<forall>d\<in>set ds. \<exists>i. index due d = Some i \<and> i < length ids \<and> i < length descs \<and>
             (d = [] \<or> strptime d \<noteq> None)"
    and "set ids \<subseteq> task_id ` set ts"
  shows "\<exists>ts'. update_loop ds due descs ids ts = Inr ts'"
  using assms
proof (induction ds arbitrary: ts)
  case Nil
  show ?case by simp
next
  case (Cons d ds)
  from Cons.prems(1) obtain i where
    i: "index due d = Some i" "i < length ids" "i < length descs" and
    p: "d = [] \<or> strptime d \<noteq> None"
    by auto
  from i(2) Cons.prems(2) have m: "ids ! i \<in> task_id ` set ts" by auto
  let ?ts1 = "map (\<lambda>t. if task_id t = ids ! i then t\<lparr>task_description := descs ! i\<rparr> else t) ts"
  have u1: "update_task (ids ! i) (\<lambda>t. t\<lparr>task_description := descs ! i\<rparr>) ts = Some ?ts1"
    using m by (rule update_task_total)
  have "map task_id ?ts1 = map task_id ts"
    using u1 by (rule update_task_preserves) simp
  then have k1: "task_id ` set ?ts1 = task_id ` set ts" by (metis set_map)
  from Cons.prems(1) have rest: "\<forall>d\<in>set ds. \<exists>i. index due d = Some i \<and> i < length ids \<and>
      i < length descs \<and> (d = [] \<or> strptime d \<noteq> None)"
    by simp
  show ?case
  proof (cases "d = []")
    case True
    from Cons.prems(2) k1 have "set ids \<subseteq> task_id ` set ?ts1" by simp
    from Cons.IH [OF rest this] obtain ts' where
      "update_loop ds due descs ids ?ts1 = Inr ts'" by blast
    with i u1 True show ?thesis by simp
  next
    case False
    with p obtain dd where dd: "strptime d = Some dd" by auto
    let ?ts2 = "map (\<lambda>t. if task_id t = ids ! i then t\<lparr>task_deadline := Some dd\<rparr> else t) ?ts1"
    from m k1 have "ids ! i \<in> task_id ` set ?ts1" by simp
    then have u2: "update_task (ids ! i) (\<lambda>t. t\<lparr>task_deadline := Some dd\<rparr>) ?ts1 = Some ?ts2"
      by (rule update_task_total)
    have "map task_id ?ts2 = map task_id ?ts1"
      using u2 by (rule update_task_preserves) simp
    then have "task_id ` set ?ts2 = task_id ` set ?ts1" by (metis set_map)
    with Cons.prems(2) k1 have "set ids \<subseteq> task_id ` set ?ts2" by simp
    from Cons.IH [OF rest this] obtain ts' where
      "update_loop ds due descs ids ?ts2 = Inr ts'" by blast
    with i u1 u2 dd False show ?thesis by simp
  qed
qed

lemma update_list_carried_out:
  assumes "k \<in> list_id ` set (list_todos s)"
    and "set (form_done form) \<subseteq> task_id ` set (tasks s)"
    and "\<forall>d\<in>set (form_deadline form).
           \<exists>i. index (form_deadline form) d = Some i \<and>
               i < length (filter (\<lambda>task. \<not> task_done task) (tasks_of s k)) \<and>
               i < length (form_description form) \<and>
               (d = [] \<or> strptime d \<noteq> None)"
  shows "\<exists>s' kw. update_list s k form = (s', [], Render_template ''create-tasks.html'' kw)"
proof -
  let ?ids = "map task_id (filter (\<lambda>task. \<not> task_done task) (tasks_of s k))"
  from assms(1) obtain l where l: "find (\<lambda>l. list_id l = k) (list_todos s) = Some l"
    by (cases "find (\<lambda>l. list_id l = k) (list_todos s)") (auto simp: find_None_iff)
  from complete_tasks_total [OF assms(2)] obtain ts1 where
    c: "complete_tasks (form_done form) (tasks s) = Inr ts1" by blast
  have "map task_id ts1 = map task_id (tasks s)"
    unfolding complete_tasks_Inr [OF c] by (simp add: o_def if_distrib cong: if_cong)
  then have "task_id ` set ts1 = task_id ` set (tasks s)" by (metis set_map)
  then have sub: "set ?ids \<subseteq> task_id ` set ts1"
    by (auto simp: tasks_of_def)
  have "\<forall>d\<in>set (form_deadline form).
           \<exists>i. index (form_deadline form) d = Some i \<and> i < length ?ids \<and>
               i < length (form_description form) \<and> (d = [] \<or> strptime d \<noteq> None)"
    using assms(3) by simp
  from update_loop_total [OF this sub] obtain ts2 where
    "update_loop (form_deadline form) (form_deadline form) (form_description form) ?ids ts1
       = Inr ts2" by blast
  with l c show ?thesis by (simp add: update_list_def Let_def)
qed

text \<open>
  Claim C6, as stated: after every bulk update the tasks whose id was submitted in
  \<^verbatim>\<open>done\<close> are done. The flags are committed at the end of the handler only: a request
  that raises before (here on a deadline that is not a date) ends in a server error and
  task 1, although submitted, stays not done.
\<close>

theorem update_list_server_error_marks_nothing:
  "update_list two_tasks 1 slash_deadline = (two_tasks, [], Server_error ValueError) \<and>
   form_done slash_deadline = [1] \<and>
   map task_id (tasks two_tasks) = [1, 2] \<and>
   map task_done (tasks two_tasks) = [False, False]"
  by (simp add: update_list_def tasks_of_def update_task_def example_defs is_digit_def)

text \<open>
  Claim C6, amended. A bulk update is carried out (the view is rendered) whenever the
  list exists, every submitted \<^verbatim>\<open>done\<close> id is the id of a task in the store, and every
  submitted deadline has, at the position of its first occurrence, a not-done task of
  the list and a description, and is empty or a date. A bulk update either ends in a
  server error and leaves the state as it was, or is carried out and leaves the
  \<^verbatim>\<open>Task\<close> table with the same rows in the same order, the done flag of a row being true
  afterwards exactly when it was true before or the id of the row is among the submitted
  \<^verbatim>\<open>done\<close> values. And whatever the request, no route removes a task or turns a done
  flag from true to false.
\<close>

theorem done_flags_after_update:
  "(k \<in> list_id ` set (list_todos s) \<and>
    set (form_done form) \<subseteq> task_id ` set (tasks s) \<and>
    (\<forall>d\<in>set (form_deadline form).
       \<exists>i. index (form_deadline form) d = Some i \<and>
           i < length (filter (\<lambda>task. \<not> task_done task) (tasks_of s k)) \<and>
           i < length (form_description form) \<and>
           (d = [] \<or> strptime d \<noteq> None)) \<longrightarrow>
      (\<exists>s' kw. update_list s k form = (s', [], Render_template ''create-tasks.html'' kw))) \<and>
   (update_list s k form = (s1, fl1, r1) \<longrightarrow>
      (s1 = s \<and> (\<exists>e. r1 = Server_error e)) \<or>
      ((\<exists>kw. r1 = Render_template ''create-tasks.html'' kw) \<and>
       map task_id (tasks s1) = map task_id (tasks s) \<and>
       map task_done (tasks s1)
         = map (\<lambda>t. task_done t \<or> task_id t \<in> set (form_done form)) (tasks s))) \<and>
   (handle gen chk today s req = (s2, fl2, r2) \<longrightarrow>
      length (tasks s) \<le> length (tasks s2) \<and>
      (\<forall>i<length (tasks s).
         task_id (tasks s2 ! i) = task_id (tasks s ! i) \<and>
         (task_done (tasks s ! i) \<longrightarrow> task_done (tasks s2 ! i))))"
proof (intro conjI impI)
  assume "k \<in> list_id ` set (list_todos s) \<and>
    set (form_done form) \<subseteq> task_id ` set (tasks s) \<and>
    (\<forall>d\<in>set (form_deadline form).
       \<exists>i. index (form_deadline form) d = Some i \<and>
           i < length (filter (\<lambda>task. \<not> task_done task) (tasks_of s k)) \<and>
           i < length (form_description form) \<and>
           (d = [] \<or> strptime d \<noteq> None))"
  then show "\<exists>s' kw. update_list s k form = (s', [], Render_template ''create-tasks.html'' kw)"
    by (intro update_list_carried_out) simp_all
next
  assume a: "update_list s k form = (s1, fl1, r1)"
  show "(s1 = s \<and> (\<exists>e. r1 = Server_error e)) \<or>
      ((\<exists>kw. r1 = Render_template ''create-tasks.html'' kw) \<and>
       map task_id (tasks s1) = map task_id (tasks s) \<and>
       map task_done (tasks s1)
         = map (\<lambda>t. task_done t \<or> task_id t \<in> set (form_done form)) (tasks s))"
  proof (cases "\<exists>e. r1 = Server_error e")
    case True
    with update_list_cases [OF a] show ?thesis by auto
  next
    case False
    with update_list_cases [OF a] obtain kw where
      r: "r1 = Render_template ''create-tasks.html'' kw"
      by auto
    with a have b: "update_list s k form = (s1, fl1, Render_template ''create-tasks.html'' kw)"
      by simp
    from update_list_tasks(1) [OF b] update_list_tasks(3) [OF b] r show ?thesis by simp
  qed
next
  assume "handle gen chk today s req = (s2, fl2, r2)"
  from handle_done_kept [OF this] show "length (tasks s) \<le> length (tasks s2)"
    and "\<forall>i<length (tasks s).
         task_id (tasks s2 ! i) = task_id (tasks s ! i) \<and>
         (task_done (tasks s ! i) \<longrightarrow> task_done (tasks s2 ! i))"
    by simp_all
qed

theorem done_flags_after_update_witness:
  "update_list two_tasks 1 milk_done
     = (two_tasks\<lparr>list_todos := [groceries\<lparr>list_name := ''Saturday''\<rparr>],
                   tasks := [buy_milk\<lparr>task_done := True, task_description := ''Buy bread'',
                                      task_deadline := Some \<lparr>year = 2024, month = 1, day = 5\<rparr>\<rparr>,
                             buy_eggs\<lparr>task_description := ''Buy butter''\<rparr>]\<rparr>, [],
        Render_template ''create-tasks.html''
          [Data (Some (groceries\<lparr>list_name := ''Saturday''\<rparr>)), Completed False]) \<and>
   map task_id (tasks two_tasks) = [1, 2] \<and>
   map task_done (tasks two_tasks) = [False, False] \<and>
   form_done milk_done = [1] \<and>
   map task_done [buy_milk\<lparr>task_done := True, task_description := ''Buy bread'',
                           task_deadline := Some \<lparr>year = 2024, month = 1, day = 5\<rparr>\<rparr>,
                  buy_eggs\<lparr>task_description := ''Buy butter''\<rparr>] = [True, False]"
proof -
  let ?s1 = "two_tasks\<lparr>list_todos := [groceries\<lparr>list_name := ''Saturday''\<rparr>],
                   tasks := [buy_milk\<lparr>task_done := True, task_description := ''Buy bread'',
                                      task_deadline := Some \<lparr>year = 2024, month = 1, day = 5\<rparr>\<rparr>,
                             buy_eggs\<lparr>task_description := ''Buy butter''\<rparr>]\<rparr>"
  let ?r = "Render_template ''create-tasks.html''
          [Data (Some (groceries\<lparr>list_name := ''Saturday''\<rparr>)), Completed False]"
  have c: "1 \<in> list_id ` set (list_todos two_tasks) \<and>
    set (form_done milk_done) \<subseteq> task_id ` set (tasks two_tasks) \<and>
    (\<forall>d\<in>set (form_deadline milk_done).
       \<exists>i. index (form_deadline milk_done) d = Some i \<and>
           i < length (filter (\<lambda>task. \<not> task_done task) (tasks_of two_tasks 1)) \<and>
           i < length (form_description milk_done) \<and>
           (d = [] \<or> strptime d \<noteq> None))"
    by (simp add: tasks_of_def example_defs is_digit_def digit_val_def make_date_def
        days_in_month_def is_leap_def)
  have u: "update_list two_tasks 1 milk_done = (?s1, [], ?r)"
    by (rule milk_done_result)
  then have h: "handle toy_hash toy_check ''2024/01/05'' two_tasks (Update_list 1 milk_done)
                  = (?s1, [], ?r)"
    by simp
  from done_flags_after_update [of 1 two_tasks milk_done ?s1 "[]" ?r
      toy_hash toy_check "''2024/01/05''" "Update_list 1 milk_done" ?s1 "[]" ?r] c u h
  show ?thesis by (simp add: example_defs)
qed

section \<open>Tasks without a parent list\<close>












section \<open>The completion flag\<close>

text \<open>
  Claim C8. When a bulk update is carried out, the view gets \<^verbatim>\<open>completed\<close> true if and
  only if, in the state after the update, every task of the updated list is done.
\<close>

theorem completed_flag_iff_all_done:
  assumes "update_list s k form = (s', fl, Render_template tpl kw)"
  shows "\<exists>d. kw = [Data d,
            Completed (\<forall>t\<in>set (tasks s'). task_tasks_list t = Some k \<longrightarrow> task_done t)]"
  using update_list_cases [OF assms]
  by (auto simp: progress_of_iff tasks_of_def)

theorem completed_flag_iff_all_done_witness:
  "update_list two_tasks 1 both_done
     = (two_tasks\<lparr>tasks := [buy_milk\<lparr>task_done := True, task_description := ''Buy bread''\<rparr>,
                             buy_eggs\<lparr>task_done := True\<rparr>]\<rparr>, [],
        Render_template ''create-tasks.html'' [Data (Some groceries), Completed True]) \<and>
   (\<exists>d. [Data (Some groceries), Completed True]
      = [Data d,
         Completed (\<forall>t\<in>set [buy_milk\<lparr>task_done := True, task_description := ''Buy bread''\<rparr>,
                               buy_eggs\<lparr>task_done := True\<rparr>].
                      task_tasks_list t = Some 1 \<longrightarrow> task_done t)])"
proof -
  let ?s' = "two_tasks\<lparr>tasks := [buy_milk\<lparr>task_done := True, task_description := ''Buy bread''\<rparr>,
                             buy_eggs\<lparr>task_done := True\<rparr>]\<rparr>"
  have h: "update_list two_tasks 1 both_done
     = (?s', [], Render_template ''create-tasks.html'' [Data (Some groceries), Completed True])"
    by (simp add: update_list_def tasks_of_def update_task_def progress_of_def example_defs)
  from completed_flag_iff_all_done [OF h] h show ?thesis by simp
qed

text \<open>
  Claim C9. The ids of the not-done tasks are collected before the submitted \<^verbatim>\<open>done\<close>
  ids are applied, so a task that this very request marks done keeps its position and
  still receives the description (and deadline) submitted at that position.

  The first half holds and shows below: the first task is marked done by the request and
  still gets the first description. The second task is marked done too, keeps its
  position 1, and does not get the second description, because the deadline at position
  1 repeats the one at position 0 and \<^verbatim>\<open>due_to_dates.index\<close> returns 0 for both.
\<close>

theorem update_list_done_task_repeated_deadline:
  "update_list two_tasks 1 both_done
     = (two_tasks\<lparr>tasks := [buy_milk\<lparr>task_done := True, task_description := ''Buy bread''\<rparr>,
                             buy_eggs\<lparr>task_done := True\<rparr>]\<rparr>, [],
        Render_template ''create-tasks.html'' [Data (Some groceries), Completed True])"
  by (simp add: update_list_def tasks_of_def update_task_def progress_of_def example_defs)

text \<open>
  Claim C10. A bulk update of a list without tasks that is carried out passes
  \<^verbatim>\<open>completed\<close> true to the view; and it is carried out whenever the list exists and no
  \<^verbatim>\<open>done\<close> id and no deadline is submitted.
\<close>

theorem completed_flag_empty_list:
  assumes "tasks_of s k = []"
  shows "(update_list s k form = (s', fl, Render_template tpl kw) \<longrightarrow>
            (\<exists>d. kw = [Data d, Completed True])) \<and>
         (k \<in> list_id ` set (list_todos s) \<and> form_done form = [] \<and> form_deadline form = [] \<longrightarrow>
            (\<exists>s'' d. update_list s k form
               = (s'', [], Render_template ''create-tasks.html'' [Data d, Completed True])))"
proof (intro conjI impI)
  assume a: "update_list s k form = (s', fl, Render_template tpl kw)"
  have "set (map task_tasks_list (tasks s')) = set (map task_tasks_list (tasks s))"
    using update_list_tasks(2) [OF a] by simp
  moreover have "Some k \<notin> set (map task_tasks_list (tasks s))"
    using assms by (auto simp: tasks_of_def filter_empty_conv)
  ultimately have "Some k \<notin> task_tasks_list ` set (tasks s')"
    by simp
  then have "tasks_of s' k = []"
    unfolding tasks_of_def filter_empty_conv by (metis imageI)
  with update_list_cases [OF a] show "\<exists>d. kw = [Data d, Completed True]"
    by (auto simp: progress_of_def)
next
  assume b: "k \<in> list_id ` set (list_todos s) \<and> form_done form = [] \<and> form_deadline form = []"
  then obtain l where "find (\<lambda>l. list_id l = k) (list_todos s) = Some l"
    by (cases "find (\<lambda>l. list_id l = k) (list_todos s)") (auto simp: find_None_iff)
  with b assms show "\<exists>s'' d. update_list s k form
               = (s'', [], Render_template ''create-tasks.html'' [Data d, Completed True])"
    by (simp add: update_list_def Let_def tasks_of_def progress_of_def)
qed

theorem completed_flag_empty_list_witness:
  "tasks_of no_tasks 1 = [] \<and>
   update_list no_tasks 1 nothing_submitted
     = (no_tasks, [], Render_template ''create-tasks.html'' [Data (Some groceries), Completed True])"
proof -
  have h: "tasks_of no_tasks 1 = []" by (simp add: tasks_of_def example_defs)
  have p: "1 \<in> list_id ` set (list_todos no_tasks) \<and> form_done nothing_submitted = [] \<and>
           form_deadline nothing_submitted = []"
    by (simp add: example_defs)
  from completed_flag_empty_list [OF h, of nothing_submitted] p obtain s'' d where
    r: "update_list no_tasks 1 nothing_submitted
          = (s'', [], Render_template ''create-tasks.html'' [Data d, Completed True])"
    by blast
  have "fst (update_list no_tasks 1 nothing_submitted) = no_tasks"
    and "\<exists>c. snd (snd (update_list no_tasks 1 nothing_submitted))
           = Render_template ''create-tasks.html'' [Data (Some groceries), c]"
    by (simp_all add: update_list_def tasks_of_def example_defs)
  with r h show ?thesis by auto
qed

end
